theory Spec2Isabelle
  imports Complex_Main
begin

section \<open>JavaScript numbers\<close>

text \<open>
  The component computes with the TypeScript type \<open>number\<close>. A number is modelled as
  a real or one of the three special values of the language. What the language does at
  the special values is written out: a division by zero gives an infinity or \<open>NaN\<close>
  instead of raising, \<open>NaN\<close> is absorbing, and a comparison with \<open>NaN\<close> is false.
  The operations \<open>jadd\<close>, \<open>jsub\<close>, \<open>jmul\<close> and \<open>jdiv\<close> compute on finite numbers
  exactly; \<open>rnd\<close> below rounds a result to binary64, as the language does after every
  operation. The sign of zero is not modelled.
\<close>

datatype jsnum = Num real | PosInf | NegInf | NaN

fun jneg :: "jsnum \<Rightarrow> jsnum" where
  "jneg (Num a) = Num (- a)"
| "jneg PosInf = NegInf"
| "jneg NegInf = PosInf"
| "jneg NaN = NaN"

fun jadd :: "jsnum \<Rightarrow> jsnum \<Rightarrow> jsnum" where
  "jadd (Num a) (Num b) = Num (a + b)"
| "jadd NaN _ = NaN"
| "jadd _ NaN = NaN"
| "jadd PosInf NegInf = NaN"
| "jadd NegInf PosInf = NaN"
| "jadd PosInf _ = PosInf"
| "jadd _ PosInf = PosInf"
| "jadd NegInf _ = NegInf"
| "jadd _ NegInf = NegInf"

definition jsub :: "jsnum \<Rightarrow> jsnum \<Rightarrow> jsnum" where
  "jsub a b = jadd a (jneg b)"

text \<open>The sign of an infinite product or quotient, from the sign of the finite operand.\<close>

definition signedInf :: "bool \<Rightarrow> jsnum" where
  "signedInf pos = (if pos then PosInf else NegInf)"

fun jmul :: "jsnum \<Rightarrow> jsnum \<Rightarrow> jsnum" where
  "jmul (Num a) (Num b) = Num (a * b)"
| "jmul NaN _ = NaN"
| "jmul _ NaN = NaN"
| "jmul PosInf (Num b) = (if b = 0 then NaN else signedInf (0 < b))"
| "jmul NegInf (Num b) = (if b = 0 then NaN else signedInf (b < 0))"
| "jmul (Num a) PosInf = (if a = 0 then NaN else signedInf (0 < a))"
| "jmul (Num a) NegInf = (if a = 0 then NaN else signedInf (a < 0))"
| "jmul PosInf PosInf = PosInf"
| "jmul NegInf NegInf = PosInf"
| "jmul PosInf NegInf = NegInf"
| "jmul NegInf PosInf = NegInf"

fun jdiv :: "jsnum \<Rightarrow> jsnum \<Rightarrow> jsnum" where
  "jdiv (Num a) (Num b) =
     (if b = 0 then (if a = 0 then NaN else signedInf (0 < a)) else Num (a / b))"
| "jdiv NaN _ = NaN"
| "jdiv _ NaN = NaN"
| "jdiv (Num a) PosInf = Num 0"
| "jdiv (Num a) NegInf = Num 0"
| "jdiv PosInf (Num b) = signedInf (0 \<le> b)"
| "jdiv NegInf (Num b) = signedInf (b < 0)"
| "jdiv PosInf PosInf = NaN"
| "jdiv PosInf NegInf = NaN"
| "jdiv NegInf PosInf = NaN"
| "jdiv NegInf NegInf = NaN"

text \<open>\<open>Math.round\<close>: the nearest integer, a tie going up.\<close>

fun jround :: "jsnum \<Rightarrow> jsnum" where
  "jround (Num a) = Num (of_int \<lfloor>a + 1 / 2\<rfloor>)"
| "jround PosInf = PosInf"
| "jround NegInf = NegInf"
| "jround NaN = NaN"

text \<open>\<open>Math.max\<close> of two arguments.\<close>

fun jmax :: "jsnum \<Rightarrow> jsnum \<Rightarrow> jsnum" where
  "jmax (Num a) (Num b) = Num (max a b)"
| "jmax NaN _ = NaN"
| "jmax _ NaN = NaN"
| "jmax PosInf _ = PosInf"
| "jmax _ PosInf = PosInf"
| "jmax NegInf b = b"
| "jmax a NegInf = a"

text \<open>The comparisons \<open><=\<close> and \<open><\<close>.\<close>

fun jle :: "jsnum \<Rightarrow> jsnum \<Rightarrow> bool" where
  "jle (Num a) (Num b) = (a \<le> b)"
| "jle NaN _ = False"
| "jle _ NaN = False"
| "jle NegInf _ = True"
| "jle _ PosInf = True"
| "jle _ NegInf = False"
| "jle PosInf _ = False"

fun jless :: "jsnum \<Rightarrow> jsnum \<Rightarrow> bool" where
  "jless (Num a) (Num b) = (a < b)"
| "jless NaN _ = False"
| "jless _ NaN = False"
| "jless PosInf _ = False"
| "jless _ NegInf = False"
| "jless NegInf _ = True"
| "jless _ PosInf = True"

subsection \<open>Rounding to binary64\<close>

text \<open>
  A finite binary64 number is an integer multiple of the quantum of its binade: for a
  magnitude \<open>a\<close> in \<open>[2^e, 2^(e+1))\<close> the quantum is \<open>2^(e - 52)\<close>, with \<open>e\<close> no
  less than -1022 (below \<open>2^-1022\<close> the numbers are subnormal and keep the quantum
  \<open>2^-1074\<close>) and no more than 1023. \<open>expoDown n a\<close> counts the doublings that take a
  magnitude below 1 to 1 or above, at most \<open>n\<close>; \<open>expoUp n a\<close> counts the halvings that
  take a magnitude from 1 on below 2, at most \<open>n\<close>.
\<close>

fun expoDown :: "nat \<Rightarrow> real \<Rightarrow> nat" where
  "expoDown 0 a = 0"
| "expoDown (Suc n) a = (if 1 \<le> a then 0 else Suc (expoDown n (2 * a)))"

fun expoUp :: "nat \<Rightarrow> real \<Rightarrow> nat" where
  "expoUp 0 a = 0"
| "expoUp (Suc n) a = (if a < 2 then 0 else Suc (expoUp n (a / 2)))"

definition quantum :: "real \<Rightarrow> real" where
  "quantum a = (if 1 \<le> a then 2 ^ expoUp 1023 a / 2 ^ 52 else 1 / 2 ^ (expoDown 1022 a + 52))"

text \<open>The nearest integer, a tie going to the even one.\<close>

definition rne :: "real \<Rightarrow> int" where
  "rne x = (let f = \<lfloor>x\<rfloor>; d = x - of_int f
            in if d < 1 / 2 then f else if 1 / 2 < d then f + 1
               else if even f then f else f + 1)"

text \<open>
  The nearest multiple of the quantum, ties to even; a result of magnitude \<open>2^1024\<close>
  or more is an infinity.
\<close>

definition round64 :: "real \<Rightarrow> real" where
  "round64 x = sgn x * (of_int (rne (\<bar>x\<bar> / quantum \<bar>x\<bar>)) * quantum \<bar>x\<bar>)"

fun rnd :: "jsnum \<Rightarrow> jsnum" where
  "rnd (Num x) = (if 2 ^ 1024 \<le> \<bar>round64 x\<bar> then signedInf (0 < x) else Num (round64 x))"
| "rnd PosInf = PosInf"
| "rnd NegInf = NegInf"
| "rnd NaN = NaN"

text \<open>A decimal literal of the source denotes the binary64 number nearest to it.\<close>

definition lit :: "real \<Rightarrow> jsnum" where
  "lit x = rnd (Num x)"

text \<open>
  Reading an array at an index: outside the array the result is \<open>undefined\<close>
  (\<open>None\<close>), also at a negative index.
\<close>

definition jsIndex :: "'a list \<Rightarrow> int \<Rightarrow> 'a option" where
  "jsIndex xs i = (if 0 \<le> i \<and> i < int (length xs) then Some (xs ! nat i) else None)"

text \<open>Reading a property of \<open>undefined\<close> throws.\<close>

datatype error = TypeError

section \<open>Type definitions\<close>

record TrafficSources =
  organic :: jsnum
  paid :: jsnum
  social :: jsnum
  email :: jsnum
  direct :: jsnum

record MonthData =
  month :: string
  revenue :: jsnum
  units :: jsnum
  grossMargin :: jsnum
  conversionRate :: jsnum
  avgOrderValue :: jsnum
  trafficSources :: TrafficSources

text \<open>
  The fields \<open>month\<close> and \<open>revenue\<close> of a forecast point carry the suffix \<open>_f\<close>,
  the names without it being those of \<open>MonthData\<close>.
\<close>

record ForecastPoint =
  month_f :: string
  revenue_f :: jsnum
  forecastHigh :: jsnum
  forecastLow :: jsnum
  confidence :: jsnum

section \<open>generateMockData\<close>

text \<open>
  \<open>Math.random()\<close> reads a source of draws, each a binary64 number in \<open>[0, 1)\<close>,
  and advances it. The source is the sequence of the values it will return, the state is
  the position in it.
\<close>

type_synonym rng = "nat \<Rightarrow> real"

definition validDraws :: "rng \<Rightarrow> bool" where
  "validDraws src = (\<forall>k. 0 \<le> src k \<and> src k < 1 \<and> round64 (src k) = src k)"

definition random :: "rng \<Rightarrow> nat \<Rightarrow> jsnum \<times> nat" where
  "random src n = (Num (src n), Suc n)"

definition months :: "string list" where
  "months = [''Jan'', ''Feb'', ''Mar'', ''Apr'', ''May'', ''Jun'',
             ''Jul'', ''Aug'', ''Sep'', ''Oct'', ''Nov'', ''Dec'']"

definition seasonality :: "nat \<Rightarrow> jsnum" where
  "seasonality index =
     (if index < 6 then jadd (Num 0.8) (jmul (Num (real index)) (Num 0.05))
      else jsub (Num 1.2) (jmul (jsub (Num (real index)) (Num 6)) (Num 0.03)))"

definition holidayBoost :: "nat \<Rightarrow> jsnum" where
  "holidayBoost index = (if index \<in> set [10, 11] then Num 1.4 else Num 1.0)"

text \<open>
  One record of \<open>historicalData\<close>: the body of the callback of \<open>months.map\<close>. The
  ten draws are taken in the order of the properties of the object literal. The two
  fractions \<open>grossMargin\<close> and \<open>conversionRate\<close> are sums of a few numbers of which
  the last bit decides where they lie against the ends of their ranges; they are computed
  as the language computes them, every literal and every result rounded to binary64. The
  other fields are the exact values of their formulas.
\<close>

definition monthRecord :: "rng \<Rightarrow> string \<Rightarrow> nat \<Rightarrow> nat \<Rightarrow> MonthData \<times> nat" where
  "monthRecord src mo index n0 =
     (let (r1, n1) = random src n0;
          (r2, n2) = random src n1;
          (r3, n3) = random src n2;
          (r4, n4) = random src n3;
          (r5, n5) = random src n4;
          (r6, n6) = random src n5;
          (r7, n7) = random src n6;
          (r8, n8) = random src n7;
          (r9, n9) = random src n8;
          (r10, n10) = random src n9
      in (\<lparr> month = mo,
            revenue = jround (jmul (jmul (jadd (Num 850000) (jmul r1 (Num 150000)))
                                     (seasonality index)) (holidayBoost index)),
            units = jround (jmul (jmul (jadd (Num 2800) (jmul r2 (Num 500)))
                                   (seasonality index)) (holidayBoost index)),
            grossMargin =
              rnd (jadd (lit 0.68) (rnd (jsub (rnd (jmul r3 (lit 0.08))) (lit 0.04)))),
            conversionRate =
              rnd (jadd (lit 0.034) (rnd (jsub (rnd (jmul r4 (lit 0.008))) (lit 0.004)))),
            avgOrderValue = jround (jadd (Num 280) (jmul r5 (Num 40))),
            trafficSources =
              \<lparr> organic = jround (jadd (Num 15000) (jmul r6 (Num 3000))),
                paid = jround (jadd (Num 8000) (jmul r7 (Num 2000))),
                social = jround (jadd (Num 5000) (jmul r8 (Num 1500))),
                email = jround (jadd (Num 4000) (jmul r9 (Num 1000))),
                direct = jround (jadd (Num 12000) (jmul r10 (Num 2500))) \<rparr> \<rparr>,
          n10))"

text \<open>\<open>months.map\<close> with the index, the position of the source passed along.\<close>

fun mapMonths :: "rng \<Rightarrow> string list \<Rightarrow> nat \<Rightarrow> nat \<Rightarrow> MonthData list \<times> nat" where
  "mapMonths src [] index n = ([], n)"
| "mapMonths src (mo # rest) index n =
     (let (m, n') = monthRecord src mo index n;
          (ms, n'') = mapMonths src rest (Suc index) n'
      in (m # ms, n''))"

definition historicalData :: "rng \<Rightarrow> nat \<Rightarrow> MonthData list \<times> nat" where
  "historicalData src n = mapMonths src months 0 n"

definition growthTrend :: jsnum where
  "growthTrend = Num 1.08"

definition uncertainty :: jsnum where
  "uncertainty = Num 0.10"

text \<open>
  One point of \<open>forecastData\<close>: the body of the callback of the second
  \<open>months.map\<close>, which throws where \<open>historicalData[idx]\<close> is \<open>undefined\<close>.
\<close>

definition forecastPoint :: "MonthData list \<Rightarrow> string \<Rightarrow> nat \<Rightarrow> error + ForecastPoint" where
  "forecastPoint h mo idx =
     (case jsIndex h (int idx) of
        None \<Rightarrow> Inl TypeError
      | Some m \<Rightarrow>
          (let baseRevenue = jmul (revenue m) growthTrend
           in Inr \<lparr> month_f = mo @ '' (F)'',
                    revenue_f = jround baseRevenue,
                    forecastHigh = jround (jmul baseRevenue (jadd (Num 1) uncertainty)),
                    forecastLow = jround (jmul baseRevenue (jsub (Num 1) uncertainty)),
                    confidence = jmax (Num 0) (jsub (Num 0.85) (jmul (Num (real idx)) (Num 0.02))) \<rparr>))"

fun mapForecast :: "MonthData list \<Rightarrow> string list \<Rightarrow> nat \<Rightarrow> error + ForecastPoint list" where
  "mapForecast h [] idx = Inr []"
| "mapForecast h (mo # rest) idx =
     (case forecastPoint h mo idx of
        Inl e \<Rightarrow> Inl e
      | Inr p \<Rightarrow> (case mapForecast h rest (Suc idx) of
                    Inl e \<Rightarrow> Inl e
                  | Inr ps \<Rightarrow> Inr (p # ps)))"

definition forecastData :: "MonthData list \<Rightarrow> error + ForecastPoint list" where
  "forecastData h = mapForecast h months 0"

definition generateMockData :: "rng \<Rightarrow> nat \<Rightarrow> error + (MonthData list \<times> ForecastPoint list) \<times> nat" where
  "generateMockData src n =
     (let (h, n') = historicalData src n
      in case forecastData h of
           Inl e \<Rightarrow> Inl e
         | Inr f \<Rightarrow> Inr ((h, f), n'))"

section \<open>KPIs\<close>

text \<open>
  The record that \<open>kpis\<close> returns. Its field \<open>avgOrderValue\<close> carries the suffix
  \<open>_k\<close>, the name without it being that of \<open>MonthData\<close>.
\<close>

record KPIs =
  totalRevenue :: jsnum
  avgGrossMargin :: jsnum
  avgConversionRate :: jsnum
  avgOrderValue_k :: jsnum
  monthlyGrowth :: jsnum

definition currentMonthData :: "MonthData list \<Rightarrow> MonthData option" where
  "currentMonthData h = jsIndex h (int (length h) - 1)"

definition previousMonthData :: "MonthData list \<Rightarrow> MonthData option" where
  "previousMonthData h = jsIndex h (int (length h) - 2)"

text \<open>\<open>historicalData.reduce((s, m) => s + f(m), 0)\<close>.\<close>

definition reduceSum :: "(MonthData \<Rightarrow> jsnum) \<Rightarrow> MonthData list \<Rightarrow> jsnum" where
  "reduceSum f h = foldl (\<lambda>s m. jadd s (f m)) (Num 0) h"

text \<open>
  The conditional of \<open>monthlyGrowth\<close>. An object is truthy, so the test asks whether
  \<open>previousMonthData\<close> is defined; the branch taken then reads
  \<open>currentMonthData.revenue\<close>, which throws where \<open>currentMonthData\<close> is
  \<open>undefined\<close>.
\<close>

definition monthlyGrowthOf :: "MonthData list \<Rightarrow> error + jsnum" where
  "monthlyGrowthOf h =
     (case previousMonthData h of
        None \<Rightarrow> Inr (Num 0)
      | Some p \<Rightarrow>
          (case currentMonthData h of
             None \<Rightarrow> Inl TypeError
           | Some c \<Rightarrow> Inr (jmul (jdiv (jsub (revenue c) (revenue p)) (revenue p)) (Num 100))))"

text \<open>
  The divisor of the division in \<open>monthlyGrowth\<close>, where that division is evaluated:
  in the branch of a defined \<open>previousMonthData\<close>, after \<open>currentMonthData.revenue\<close>
  has been read.
\<close>

definition growthDivisor :: "MonthData list \<Rightarrow> jsnum option" where
  "growthDivisor h =
     (case previousMonthData h of
        None \<Rightarrow> None
      | Some p \<Rightarrow> (case currentMonthData h of None \<Rightarrow> None | Some c \<Rightarrow> Some (revenue p)))"

definition kpis :: "MonthData list \<Rightarrow> error + KPIs" where
  "kpis h =
     (let totalRev = reduceSum revenue h;
          avgGM = jdiv (reduceSum grossMargin h) (Num (real (length h)));
          avgCR = jdiv (reduceSum conversionRate h) (Num (real (length h)));
          avgOV = jdiv (reduceSum avgOrderValue h) (Num (real (length h)))
      in case monthlyGrowthOf h of
           Inl e \<Rightarrow> Inl e
         | Inr g \<Rightarrow> Inr \<lparr> totalRevenue = totalRev, avgGrossMargin = avgGM,
                          avgConversionRate = avgCR, avgOrderValue_k = avgOV,
                          monthlyGrowth = g \<rparr>)"

section \<open>Scenario planning\<close>

text \<open>
  \<open>renderForecast\<close> shows three amounts, each the total revenue times a fixed
  factor; the number it prints is that amount in millions (with one decimal).
\<close>

definition bearCase :: "jsnum \<Rightarrow> jsnum" where
  "bearCase totalRev = jmul totalRev (Num 0.85)"

definition baseCase :: "jsnum \<Rightarrow> jsnum" where
  "baseCase totalRev = jmul totalRev (Num 1.08)"

definition bullCase :: "jsnum \<Rightarrow> jsnum" where
  "bullCase totalRev = jmul totalRev (Num 1.25)"

definition bearMillions :: "jsnum \<Rightarrow> jsnum" where
  "bearMillions totalRev = jdiv (bearCase totalRev) (Num 1000000)"

definition baseMillions :: "jsnum \<Rightarrow> jsnum" where
  "baseMillions totalRev = jdiv (baseCase totalRev) (Num 1000000)"

definition bullMillions :: "jsnum \<Rightarrow> jsnum" where
  "bullMillions totalRev = jdiv (bullCase totalRev) (Num 1000000)"

section \<open>Sample inputs\<close>

text \<open>
  A month with a given label and revenue, its other fields at mid-range values; a year
  whose December revenue is 1,000,000; the two months with revenues 100 and 110; two
  months of which the first has no revenue; a source whose every draw is 0; and a source
  whose every draw is \<open>1 - 2^-52\<close>.
\<close>

definition monthWithRevenue :: "string \<Rightarrow> real \<Rightarrow> MonthData" where
  "monthWithRevenue mo r =
     \<lparr> month = mo, revenue = Num r, units = Num 3000, grossMargin = Num 0.68,
       conversionRate = Num 0.034, avgOrderValue = Num 300,
       trafficSources = \<lparr> organic = Num 16000, paid = Num 9000, social = Num 6000,
                          email = Num 4500, direct = Num 13000 \<rparr> \<rparr>"

definition decemberMillion :: "MonthData list" where
  "decemberMillion =
     map (\<lambda>mo. monthWithRevenue mo 900000) (butlast months) @ [monthWithRevenue ''Dec'' 1000000]"

definition twoMonths :: "MonthData list" where
  "twoMonths = [monthWithRevenue ''Nov'' 100, monthWithRevenue ''Dec'' 110]"

definition zeroThenSales :: "MonthData list" where
  "zeroThenSales = [monthWithRevenue ''Nov'' 0, monthWithRevenue ''Dec'' 110]"

definition zeroDraws :: rng where
  "zeroDraws = (\<lambda>_. 0)"

definition topDraws :: rng where
  "topDraws = (\<lambda>_. 1 - 1 / 2 ^ 52)"

section \<open>Properties of the model\<close>

subsection \<open>Arithmetic, indexing and the two maps\<close>

lemma jsub_Num: "jsub (Num a) (Num b) = Num (a - b)"
  by (simp add: jsub_def)

lemma length_months: "length months = 12"
  by (simp add: months_def)

lemma jsIndex_nat: "idx < length h \<Longrightarrow> jsIndex h (int idx) = Some (h ! idx)"
  by (simp add: jsIndex_def)

lemma forecastPoint_Inr:
  "idx < length h \<Longrightarrow>
   forecastPoint h mo idx =
     Inr \<lparr> month_f = mo @ '' (F)'',
           revenue_f = jround (jmul (revenue (h ! idx)) (Num 1.08)),
           forecastHigh = jround (jmul (jmul (revenue (h ! idx)) (Num 1.08)) (Num 1.10)),
           forecastLow = jround (jmul (jmul (revenue (h ! idx)) (Num 1.08)) (Num 0.90)),
           confidence = Num (max 0 (0.85 - 0.02 * real idx)) \<rparr>"
  by (simp add: forecastPoint_def jsIndex_nat growthTrend_def uncertainty_def jsub_Num Let_def)

lemma mapForecast_Inr:
  "idx + length ms \<le> length h \<Longrightarrow>
   \<exists>ps. mapForecast h ms idx = Inr ps \<and> length ps = length ms \<and>
        (\<forall>k<length ms. forecastPoint h (ms ! k) (idx + k) = Inr (ps ! k))"
proof (induction ms arbitrary: idx)
  case Nil
  then show ?case by simp
next
  case (Cons mo rest)
  from Cons.prems have lt: "idx < length h" by simp
  then obtain p where p: "forecastPoint h mo idx = Inr p"
    using forecastPoint_Inr by blast
  from Cons.prems have "Suc idx + length rest \<le> length h" by simp
  from Cons.IH [OF this] obtain ps where
    ps: "mapForecast h rest (Suc idx) = Inr ps" "length ps = length rest"
        "\<forall>k<length rest. forecastPoint h (rest ! k) (Suc idx + k) = Inr (ps ! k)"
    by blast
  have "\<forall>k<length (mo # rest). forecastPoint h ((mo # rest) ! k) (idx + k) = Inr ((p # ps) ! k)"
  proof (intro allI impI)
    fix k assume "k < length (mo # rest)"
    then show "forecastPoint h ((mo # rest) ! k) (idx + k) = Inr ((p # ps) ! k)"
      using p ps(3) by (cases k) simp_all
  qed
  with p ps show ?case by simp
qed

lemma forecastData_Inr:
  assumes "12 \<le> length h"
  shows "\<exists>ps. forecastData h = Inr ps \<and> length ps = 12 \<and>
          (\<forall>k<12. forecastPoint h (months ! k) k = Inr (ps ! k))"
  using mapForecast_Inr [of 0 months h] assms
  by (simp add: forecastData_def length_months)

lemma monthRecord_snd: "snd (monthRecord src mo i n) = n + 10"
  by (simp add: monthRecord_def random_def)

lemma mapMonths_length: "length (fst (mapMonths src ms idx n)) = length ms"
  by (induction ms arbitrary: idx n) (simp_all add: split_def Let_def)

lemma mapMonths_nth:
  "k < length ms \<Longrightarrow>
   fst (mapMonths src ms idx n) ! k = fst (monthRecord src (ms ! k) (idx + k) (n + 10 * k))"
proof (induction ms arbitrary: idx n k)
  case Nil
  then show ?case by simp
next
  case (Cons mo rest)
  show ?case
  proof (cases k)
    case 0
    then show ?thesis by (simp add: split_def Let_def)
  next
    case (Suc k')
    with Cons.prems have "k' < length rest" by simp
    from Cons.IH [OF this, of "Suc idx" "n + 10"] Suc
    show ?thesis by (simp add: split_def Let_def monthRecord_snd add.assoc)
  qed
qed

lemma monthRecord_fields:
  "fst (monthRecord src mo i n) =
     \<lparr> month = mo,
       revenue = jround (jmul (jmul (Num (850000 + src n * 150000)) (seasonality i)) (holidayBoost i)),
       units = jround (jmul (jmul (Num (2800 + src (n + 1) * 500)) (seasonality i)) (holidayBoost i)),
       grossMargin =
         rnd (jadd (lit 0.68) (rnd (jsub (rnd (jmul (Num (src (n + 2))) (lit 0.08))) (lit 0.04)))),
       conversionRate =
         rnd (jadd (lit 0.034) (rnd (jsub (rnd (jmul (Num (src (n + 3))) (lit 0.008))) (lit 0.004)))),
       avgOrderValue = jround (Num (280 + src (n + 4) * 40)),
       trafficSources =
         \<lparr> organic = jround (Num (15000 + src (n + 5) * 3000)),
           paid = jround (Num (8000 + src (n + 6) * 2000)),
           social = jround (Num (5000 + src (n + 7) * 1500)),
           email = jround (Num (4000 + src (n + 8) * 1000)),
           direct = jround (Num (12000 + src (n + 9) * 2500)) \<rparr> \<rparr>"
  by (simp add: monthRecord_def random_def jsub_Num eval_nat_numeral)

lemma historicalData_length: "length (fst (historicalData src n)) = 12"
  by (simp add: historicalData_def mapMonths_length length_months)

lemma historicalData_nth:
  "k < 12 \<Longrightarrow>
   fst (historicalData src n) ! k = fst (monthRecord src (months ! k) k (n + 10 * k))"
  using mapMonths_nth [of k months src 0 n] by (simp add: historicalData_def length_months)

lemma seasonality_Num:
  "seasonality i = Num (if i < 6 then 0.8 + real i * 0.05 else 1.2 - (real i - 6) * 0.03)"
  by (simp add: seasonality_def jsub_Num)

lemma holidayBoost_Num: "holidayBoost i = Num (if i = 10 \<or> i = 11 then 1.4 else 1)"
  by (simp add: holidayBoost_def)

lemma length_decemberMillion: "length decemberMillion = 12"
  by (simp add: decemberMillion_def months_def)

lemma decemberMillion_11: "decemberMillion ! 11 = monthWithRevenue ''Dec'' 1000000"
  by (simp add: decemberMillion_def months_def nth_append)

lemma decemberMillion_revenue: "m \<in> set decemberMillion \<Longrightarrow> jle (Num 0) (revenue m)"
  by (auto simp: decemberMillion_def monthWithRevenue_def)

lemma band_order:
  assumes "jle (Num 0) r"
  shows "jle (jround (jmul (jmul r (Num 1.08)) (Num 0.90))) (jround (jmul r (Num 1.08)))
       \<and> jle (jround (jmul r (Num 1.08))) (jround (jmul (jmul r (Num 1.08)) (Num 1.10)))"
proof (cases r)
  case (Num x)
  with assms have x: "0 \<le> x" by simp
  have "x * (27 / 25) * (9 / 10) + 1 / 2 \<le> x * (27 / 25) + 1 / 2"
    using x by simp
  then have lo: "\<lfloor>x * (27 / 25) * (9 / 10) + 1 / 2\<rfloor> \<le> \<lfloor>x * (27 / 25) + 1 / 2\<rfloor>"
    by (rule floor_mono)
  have "x * (27 / 25) + 1 / 2 \<le> x * (27 / 25) * (11 / 10) + 1 / 2"
    using x by simp
  then have hi: "\<lfloor>x * (27 / 25) + 1 / 2\<rfloor> \<le> \<lfloor>x * (27 / 25) * (11 / 10) + 1 / 2\<rfloor>"
    by (rule floor_mono)
  from lo hi Num show ?thesis by simp
next
  case PosInf
  then show ?thesis by (simp add: signedInf_def)
next
  case NegInf
  with assms show ?thesis by simp
next
  case NaN
  with assms show ?thesis by simp
qed

lemma foldl_jadd_Num:
  "map f h = map Num xs \<Longrightarrow> foldl (\<lambda>s m. jadd s (f m)) (Num a) h = Num (a + sum_list xs)"
proof (induction h arbitrary: a xs)
  case Nil
  then show ?case by simp
next
  case (Cons m h)
  then obtain x xs' where xs: "xs = x # xs'" "f m = Num x" "map f h = map Num xs'"
    by (cases xs) auto
  from Cons.IH [OF xs(3), of "a + x"] xs show ?case by (simp add: add.assoc)
qed

lemma reduceSum_Num: "map f h = map Num xs \<Longrightarrow> reduceSum f h = Num (sum_list xs)"
  using foldl_jadd_Num [of f h xs 0] by (simp add: reduceSum_def)

lemma previousMonthData_Some:
  "2 \<le> length h \<Longrightarrow> previousMonthData h = Some (h ! (length h - 2))"
  by (simp add: previousMonthData_def jsIndex_def nat_diff_distrib' of_nat_diff)

lemma previousMonthData_None: "length h < 2 \<Longrightarrow> previousMonthData h = None"
  by (simp add: previousMonthData_def jsIndex_def)

lemma currentMonthData_Some: "h \<noteq> [] \<Longrightarrow> currentMonthData h = Some (last h)"
  by (simp add: currentMonthData_def jsIndex_def last_conv_nth nat_diff_distrib' of_nat_diff Suc_leI)

lemma monthlyGrowthOf_two:
  "2 \<le> length h \<Longrightarrow>
   monthlyGrowthOf h =
     Inr (jmul (jdiv (jsub (revenue (last h)) (revenue (h ! (length h - 2))))
                     (revenue (h ! (length h - 2)))) (Num 100))"
proof -
  assume l: "2 \<le> length h"
  then have "h \<noteq> []" by auto
  with l show ?thesis
    by (simp add: monthlyGrowthOf_def previousMonthData_Some currentMonthData_Some)
qed

lemma monthlyGrowthOf_short: "length h < 2 \<Longrightarrow> monthlyGrowthOf h = Inr (Num 0)"
  by (simp add: monthlyGrowthOf_def previousMonthData_None)

lemma growthDivisor_eq:
  "growthDivisor h = (if 2 \<le> length h then Some (revenue (h ! (length h - 2))) else None)"
proof (cases "2 \<le> length h")
  case True
  then have "h \<noteq> []" by auto
  with True show ?thesis
    by (simp add: growthDivisor_def previousMonthData_Some currentMonthData_Some)
next
  case False
  then show ?thesis by (simp add: growthDivisor_def previousMonthData_None)
qed

lemma zero_divisor_growth:
  "jmul (jdiv (jsub c (Num 0)) (Num 0)) (Num 100) \<in> {PosInf, NegInf, NaN}"
  by (cases c) (simp_all add: jsub_def signedInf_def)

subsection \<open>Rounding to binary64\<close>

lemma expoDown_numeral:
  "expoDown (numeral k) a = (if 1 \<le> a then 0 else Suc (expoDown (pred_numeral k) (2 * a)))"
  by (simp add: numeral_eq_Suc)

lemma expoUp_numeral:
  "expoUp (numeral k) a = (if a < 2 then 0 else Suc (expoUp (pred_numeral k) (a / 2)))"
  by (simp add: numeral_eq_Suc)

lemma rne_bounds: "\<lfloor>x\<rfloor> \<le> rne x \<and> rne x \<le> \<lfloor>x\<rfloor> + 1"
  by (simp add: rne_def Let_def)

lemma rne_mono:
  assumes "x \<le> y"
  shows "rne x \<le> rne y"
proof (cases "\<lfloor>x\<rfloor> = \<lfloor>y\<rfloor>")
  case True
  with assms have "x - of_int \<lfloor>x\<rfloor> \<le> y - of_int \<lfloor>y\<rfloor>" by simp
  with True show ?thesis by (auto simp: rne_def Let_def)
next
  case False
  with assms have "\<lfloor>x\<rfloor> < \<lfloor>y\<rfloor>" using floor_mono [of x y] by linarith
  with rne_bounds [of x] rne_bounds [of y] show ?thesis by linarith
qed

lemma rne_of_int: "rne (of_int n) = n"
  by (simp add: rne_def Let_def)

lemma expoDown_le: "expoDown n a \<le> n"
  by (induction n arbitrary: a) auto

lemma expoDown_mono: "a \<le> b \<Longrightarrow> expoDown n b \<le> expoDown n a"
  by (induction n arbitrary: a b) auto

lemma expoDown_upper: "a < 1 \<Longrightarrow> 0 < n \<Longrightarrow> a * 2 ^ expoDown n a < 2"
proof (induction n arbitrary: a)
  case 0
  then show ?case by simp
next
  case (Suc n)
  show ?case
  proof (cases "2 * a < 1 \<and> 0 < n")
    case True
    with Suc.IH [of "2 * a"] Suc.prems show ?thesis by (simp add: mult.assoc)
  next
    case False
    with Suc.prems show ?thesis by (cases n) auto
  qed
qed

lemma expoDown_lower: "expoDown n a < n \<Longrightarrow> 1 \<le> a * 2 ^ expoDown n a"
proof (induction n arbitrary: a)
  case 0
  then show ?case by simp
next
  case (Suc n)
  show ?case
  proof (cases "1 \<le> a")
    case True
    then show ?thesis by simp
  next
    case False
    with Suc.prems have "expoDown n (2 * a) < n" by simp
    from Suc.IH [OF this] False show ?thesis by (simp add: mult.assoc)
  qed
qed

lemma round64_small:
  assumes "0 \<le> x" "x < 1"
  shows "round64 x =
           of_int (rne (x * 2 ^ (expoDown 1022 x + 52))) / 2 ^ (expoDown 1022 x + 52)"
proof (cases "x = 0")
  case True
  then show ?thesis by (simp add: round64_def rne_of_int [of 0, simplified])
next
  case False
  with assms have "0 < x" by simp
  with assms show ?thesis by (simp add: round64_def quantum_def)
qed

lemma rne_ge_int: "of_int n \<le> x \<Longrightarrow> n \<le> rne x"
  using rne_mono [of "of_int n" x] by (simp add: rne_of_int)

lemma rne_le_int: "x \<le> of_int n \<Longrightarrow> rne x \<le> n"
  using rne_mono [of x "of_int n"] by (simp add: rne_of_int)

lemma round64_nonneg: "0 \<le> x \<Longrightarrow> 0 \<le> round64 x"
proof -
  assume x: "0 \<le> x"
  have q: "0 < quantum \<bar>x\<bar>" by (simp add: quantum_def)
  with x have "of_int 0 \<le> \<bar>x\<bar> / quantum \<bar>x\<bar>" by simp
  then have "0 \<le> rne (\<bar>x\<bar> / quantum \<bar>x\<bar>)" by (rule rne_ge_int)
  with x q show ?thesis by (simp add: round64_def sgn_real_def)
qed

lemma round64_minus: "round64 (- x) = - round64 x"
  by (simp add: round64_def sgn_real_def)

lemma round64_mono_pos:
  assumes "0 \<le> x" "x \<le> y" "y < 1"
  shows "round64 x \<le> round64 y"
proof -
  let ?kx = "expoDown 1022 x" and ?ky = "expoDown 1022 y"
  from assms have x1: "x < 1" and y0: "0 \<le> y" by simp_all
  have rx: "round64 x = of_int (rne (x * 2 ^ (?kx + 52))) / 2 ^ (?kx + 52)"
    using assms(1) x1 by (rule round64_small)
  have ry: "round64 y = of_int (rne (y * 2 ^ (?ky + 52))) / 2 ^ (?ky + 52)"
    using y0 assms(3) by (rule round64_small)
  have k: "?ky \<le> ?kx" using assms(2) by (rule expoDown_mono)
  show ?thesis
  proof (cases "?ky = ?kx")
    case True
    from assms(2) have "x * 2 ^ (?kx + 52) \<le> y * 2 ^ (?kx + 52)" by simp
    then have "rne (x * 2 ^ (?kx + 52)) \<le> rne (y * 2 ^ (?kx + 52))" by (rule rne_mono)
    then show ?thesis by (simp add: rx ry True divide_right_mono)
  next
    case False
    with k have lt: "?ky < ?kx" by simp
    have "?kx \<le> 1022" by (rule expoDown_le)
    with lt have "?ky < 1022" by simp
    then have "1 \<le> y * 2 ^ ?ky" by (rule expoDown_lower)
    then have "2 ^ 52 \<le> y * 2 ^ ?ky * 2 ^ 52" by simp
    then have "of_int (2 ^ 52) \<le> y * 2 ^ (?ky + 52)" by (simp add: power_add mult.assoc)
    then have "2 ^ 52 \<le> rne (y * 2 ^ (?ky + 52))" by (rule rne_ge_int)
    then have "(2 ^ 52 :: real) \<le> of_int (rne (y * 2 ^ (?ky + 52)))"
      by (metis of_int_le_iff of_int_numeral of_int_power)
    then have "2 ^ 52 / 2 ^ (?ky + 52) \<le> round64 y"
      by (simp add: ry divide_right_mono)
    then have ylow: "1 / 2 ^ ?ky \<le> round64 y" by (simp add: power_add)
    have "x * 2 ^ ?kx < 2" using x1 by (rule expoDown_upper) simp
    then have "x * 2 ^ ?kx * 2 ^ 52 \<le> 2 * 2 ^ 52" by simp
    then have "x * 2 ^ (?kx + 52) \<le> of_int (2 ^ 53)" by (simp add: power_add mult.assoc)
    then have "rne (x * 2 ^ (?kx + 52)) \<le> 2 ^ 53" by (rule rne_le_int)
    then have "of_int (rne (x * 2 ^ (?kx + 52))) \<le> (2 ^ 53 :: real)"
      by (metis of_int_le_iff of_int_numeral of_int_power)
    then have "round64 x \<le> 2 ^ 53 / 2 ^ (?kx + 52)"
      by (simp add: rx divide_right_mono)
    then have xup: "round64 x \<le> 2 / 2 ^ ?kx" by (simp add: power_add)
    from lt obtain d where d: "?kx = Suc (?ky + d)" using less_iff_Suc_add by auto
    have "(2::real) / 2 ^ ?kx = 1 / (2 ^ ?ky * 2 ^ d)" by (simp add: d power_add)
    also have "\<dots> \<le> 1 / 2 ^ ?ky"
      by (simp add: field_simps)
    finally have "(2::real) / 2 ^ ?kx \<le> 1 / 2 ^ ?ky" .
    with xup ylow show ?thesis by linarith
  qed
qed

lemma round64_mono:
  assumes "x \<le> y" "\<bar>x\<bar> < 1" "\<bar>y\<bar> < 1"
  shows "round64 x \<le> round64 y"
proof (cases "0 \<le> x")
  case True
  with assms show ?thesis by (intro round64_mono_pos) simp_all
next
  case False
  show ?thesis
  proof (cases "0 \<le> y")
    case True
    from False have "0 \<le> round64 (- x)" by (intro round64_nonneg) simp
    then have "round64 x \<le> 0" by (simp add: round64_minus)
    with round64_nonneg [OF True] show ?thesis by simp
  next
    case yneg: False
    with assms have "round64 (- y) \<le> round64 (- x)" by (intro round64_mono_pos) simp_all
    then show ?thesis by (simp add: round64_minus)
  qed
qed

lemmas round64_eval = round64_def quantum_def expoDown_numeral expoUp_numeral rne_def Let_def

lemma rnd_Num_small: "\<bar>round64 x\<bar> \<le> 1 \<Longrightarrow> rnd (Num x) = Num (round64 x)"
proof -
  assume "\<bar>round64 x\<bar> \<le> 1"
  moreover have "(1::real) < 2 ^ 1024" by (rule one_less_power) simp_all
  ultimately show ?thesis by simp
qed

lemma lit_values:
  "lit 0.68 = Num (6124895493223875 / 2 ^ 53)"
  "lit 0.08 = Num (5764607523034235 / 2 ^ 56)"
  "lit 0.04 = Num (5764607523034235 / 2 ^ 57)"
  "lit 0.034 = Num (1224979098644775 / 2 ^ 55)"
  "lit 0.008 = Num (1152921504606847 / 2 ^ 57)"
  "lit 0.004 = Num (1152921504606847 / 2 ^ 58)"
  "lit 0.72 = Num (3242591731706757 / 2 ^ 52)"
  "lit 0.038 = Num (5476377146882523 / 2 ^ 57)"
  by (simp_all add: lit_def jsub_Num round64_eval)

lemma draw_below_one:
  assumes "0 \<le> r" "r < 1" "round64 r = r"
  shows "r \<le> 1 - 1 / 2 ^ 53"
proof (cases "r < 1 / 2")
  case True
  then show ?thesis by simp
next
  case False
  with assms(2) have k: "expoDown 1022 r = 1" by (simp add: expoDown_numeral)
  from round64_small [OF assms(1,2)] assms(3) k
  have eq: "r = of_int (rne (r * 2 ^ 53)) / 2 ^ 53" by simp
  then have "r * 2 ^ 53 = of_int (rne (r * 2 ^ 53))" by simp
  moreover from assms(2) have "r * 2 ^ 53 < of_int (2 ^ 53)" by simp
  ultimately have "of_int (rne (r * 2 ^ 53)) < (of_int (2 ^ 53) :: real)" by simp
  then have "rne (r * 2 ^ 53) < 2 ^ 53" by (simp only: of_int_less_iff)
  then have "rne (r * 2 ^ 53) \<le> 2 ^ 53 - 1" by simp
  then have "(of_int (rne (r * 2 ^ 53)) :: real) \<le> of_int (2 ^ 53 - 1)"
    by (simp only: of_int_le_iff)
  then have "of_int (rne (r * 2 ^ 53)) / 2 ^ 53 \<le> (of_int (2 ^ 53 - 1) :: real) / 2 ^ 53"
    by (simp add: divide_right_mono)
  with eq show ?thesis by simp
qed

lemma round64_between:
  assumes "lo \<le> x" "x \<le> hi" "\<bar>lo\<bar> < 1" "\<bar>hi\<bar> < 1"
  shows "round64 lo \<le> round64 x \<and> round64 x \<le> round64 hi"
proof -
  from assms have "\<bar>x\<bar> < 1" by linarith
  with assms show ?thesis by (simp add: round64_mono)
qed

lemma fraction_range:
  assumes r: "0 \<le> r" "r \<le> R"
    and B: "0 \<le> B" "R * B < 1"
    and P: "round64 0 = 0" "round64 (R * B) = P1" "P1 \<le> 1"
    and D: "round64 (0 - C) = D0" "round64 (P1 - C) = D1"
           "\<bar>0 - C\<bar> < 1" "\<bar>P1 - C\<bar> < 1" "\<bar>D0\<bar> \<le> 1" "\<bar>D1\<bar> \<le> 1"
    and G: "round64 (A + D0) = G0" "round64 (A + D1) = G1"
           "\<bar>A + D0\<bar> < 1" "\<bar>A + D1\<bar> < 1" "\<bar>G0\<bar> \<le> 1" "\<bar>G1\<bar> \<le> 1"
  shows "\<exists>g. rnd (jadd (Num A) (rnd (jsub (rnd (jmul (Num r) (Num B))) (Num C)))) = Num g
           \<and> G0 \<le> g \<and> g \<le> G1"
proof -
  let ?p = "round64 (r * B)" and ?d = "round64 (round64 (r * B) - C)"
  let ?g = "round64 (A + round64 (round64 (r * B) - C))"
  from r B have rb: "0 \<le> r * B" "r * B \<le> R * B" by (simp_all add: mult_right_mono)
  with B(2) have "\<bar>0::real\<bar> < 1" "\<bar>R * B\<bar> < 1" by simp_all
  from round64_between [OF rb this] P have p: "0 \<le> ?p" "?p \<le> P1" by simp_all
  with P(3) have "\<bar>?p\<bar> \<le> 1" by simp
  then have s1: "rnd (jmul (Num r) (Num B)) = Num ?p"
    by (simp only: jmul.simps rnd_Num_small)
  from p have "0 - C \<le> ?p - C" "?p - C \<le> P1 - C" by simp_all
  from round64_between [OF this D(3,4)] D(1,2) have d: "D0 \<le> ?d" "?d \<le> D1" by simp_all
  with D(5,6) have "\<bar>?d\<bar> \<le> 1" by linarith
  then have s2: "rnd (jsub (Num ?p) (Num C)) = Num ?d"
    by (simp only: jsub_Num rnd_Num_small)
  from d have "A + D0 \<le> A + ?d" "A + ?d \<le> A + D1" by simp_all
  from round64_between [OF this G(3,4)] G(1,2) have g: "G0 \<le> ?g" "?g \<le> G1" by simp_all
  with G(5,6) have "\<bar>?g\<bar> \<le> 1" by linarith
  then have s3: "rnd (jadd (Num A) (Num ?d)) = Num ?g"
    by (simp only: jadd.simps rnd_Num_small)
  from s1 s2 s3 g show ?thesis by simp
qed

lemma round64_zero: "round64 0 = 0"
  by (simp add: round64_def)

lemma grossMargin_range:
  assumes "0 \<le> r" "r \<le> 1 - 1 / 2 ^ 53"
  shows "\<exists>g. rnd (jadd (lit 0.68) (rnd (jsub (rnd (jmul (Num r) (lit 0.08))) (lit 0.04)))) = Num g
           \<and> 5764607523034235 / 2 ^ 53 \<le> g \<and> g \<le> 6485183463413515 / 2 ^ 53"
  unfolding lit_values
proof (rule fraction_range [OF assms, where ?P1.0 = "2882303761517117 / 2 ^ 55"
        and ?D0.0 = "- (5764607523034235 / 2 ^ 57)" and ?D1.0 = "5764607523034233 / 2 ^ 57"])
  show "round64 ((1 - 1 / 2 ^ 53) * (5764607523034235 / 2 ^ 56)) = 2882303761517117 / 2 ^ 55"
    by (simp add: round64_eval)
  show "round64 (0 - 5764607523034235 / 2 ^ 57) = - (5764607523034235 / 2 ^ 57)"
    by (simp add: round64_eval)
  show "round64 (2882303761517117 / 2 ^ 55 - 5764607523034235 / 2 ^ 57) = 5764607523034233 / 2 ^ 57"
    by (simp add: round64_eval)
  show "round64 (6124895493223875 / 2 ^ 53 + - (5764607523034235 / 2 ^ 57)) = 5764607523034235 / 2 ^ 53"
    by (simp add: round64_eval)
  show "round64 (6124895493223875 / 2 ^ 53 + 5764607523034233 / 2 ^ 57) = 6485183463413515 / 2 ^ 53"
    by (simp add: round64_eval)
qed (simp_all add: round64_zero)

lemma conversionRate_range:
  assumes "0 \<le> r" "r \<le> 1 - 1 / 2 ^ 53"
  shows "\<exists>c. rnd (jadd (lit 0.034) (rnd (jsub (rnd (jmul (Num r) (lit 0.008))) (lit 0.004)))) = Num c
           \<and> 8646911284551353 / 2 ^ 58 \<le> c \<and> c \<le> 5476377146882523 / 2 ^ 57"
  unfolding lit_values
proof (rule fraction_range [OF assms, where ?P1.0 = "4611686018427387 / 2 ^ 59"
        and ?D0.0 = "- (1152921504606847 / 2 ^ 58)" and ?D1.0 = "2305843009213693 / 2 ^ 59"])
  show "round64 ((1 - 1 / 2 ^ 53) * (1152921504606847 / 2 ^ 57)) = 4611686018427387 / 2 ^ 59"
    by (simp add: round64_eval)
  show "round64 (0 - 1152921504606847 / 2 ^ 58) = - (1152921504606847 / 2 ^ 58)"
    by (simp add: round64_eval)
  show "round64 (4611686018427387 / 2 ^ 59 - 1152921504606847 / 2 ^ 58) = 2305843009213693 / 2 ^ 59"
    by (simp add: round64_eval)
  show "round64 (1224979098644775 / 2 ^ 55 + - (1152921504606847 / 2 ^ 58)) = 8646911284551353 / 2 ^ 58"
    by (simp add: round64_eval)
  show "round64 (1224979098644775 / 2 ^ 55 + 2305843009213693 / 2 ^ 59) = 5476377146882523 / 2 ^ 57"
    by (simp add: round64_eval)
qed (simp_all add: round64_zero)

lemma record_margins:
  assumes "validDraws src"
  shows "\<exists>g c. grossMargin (fst (monthRecord src mo i n)) = Num g
             \<and> 5764607523034235 / 2 ^ 53 \<le> g \<and> g \<le> 6485183463413515 / 2 ^ 53
             \<and> conversionRate (fst (monthRecord src mo i n)) = Num c
             \<and> 8646911284551353 / 2 ^ 58 \<le> c \<and> c \<le> 5476377146882523 / 2 ^ 57"
proof -
  from assms have a: "0 \<le> src (n + 2)" "src (n + 2) < 1" "round64 (src (n + 2)) = src (n + 2)"
    and b: "0 \<le> src (n + 3)" "src (n + 3) < 1" "round64 (src (n + 3)) = src (n + 3)"
    by (simp_all add: validDraws_def)
  have gm: "grossMargin (fst (monthRecord src mo i n)) =
      rnd (jadd (lit 0.68) (rnd (jsub (rnd (jmul (Num (src (n + 2))) (lit 0.08))) (lit 0.04))))"
    by (simp add: monthRecord_fields)
  have cr: "conversionRate (fst (monthRecord src mo i n)) =
      rnd (jadd (lit 0.034) (rnd (jsub (rnd (jmul (Num (src (n + 3))) (lit 0.008))) (lit 0.004))))"
    by (simp add: monthRecord_fields)
  from grossMargin_range [OF a(1) draw_below_one [OF a]] obtain g where
    g: "rnd (jadd (lit 0.68) (rnd (jsub (rnd (jmul (Num (src (n + 2))) (lit 0.08))) (lit 0.04)))) = Num g"
       "5764607523034235 / 2 ^ 53 \<le> g" "g \<le> 6485183463413515 / 2 ^ 53"
    by blast
  from conversionRate_range [OF b(1) draw_below_one [OF b]] obtain c where
    c: "rnd (jadd (lit 0.034) (rnd (jsub (rnd (jmul (Num (src (n + 3))) (lit 0.008))) (lit 0.004)))) = Num c"
       "8646911284551353 / 2 ^ 58 \<le> c" "c \<le> 5476377146882523 / 2 ^ 57"
    by blast
  from gm g(1) have "grossMargin (fst (monthRecord src mo i n)) = Num g" by (simp only:)
  moreover from cr c(1) have "conversionRate (fst (monthRecord src mo i n)) = Num c" by (simp only:)
  ultimately show ?thesis using g(2,3) c(2,3) by blast
qed

lemma validDraws_zeroDraws: "validDraws zeroDraws"
  by (simp add: validDraws_def zeroDraws_def round64_zero)

lemma validDraws_topDraws: "validDraws topDraws"
  by (simp add: validDraws_def topDraws_def round64_eval)

subsection \<open>The forecast\<close>

text \<open>
  C1. For a history of at least twelve records and a period index \<open>i\<close> below 12,
  \<open>forecastData\<close> returns twelve points, and the point at \<open>i\<close> has the label of
  month \<open>i\<close> followed by the forecast tag, the revenue \<open>round(base)\<close> for
  \<open>base = historical[i].revenue * 1.08\<close>, the upper bound \<open>round(base * 1.10)\<close>, the
  lower bound \<open>round(base * 0.90)\<close> and the confidence \<open>max(0, 0.85 - 0.02 * i)\<close>.
  At a December revenue of 1,000,000 (index 11) these are 1,080,000, 1,188,000, 972,000
  and 0.63, which the second theorem computes from the first.
\<close>

theorem forecast_point_formula:
  assumes "i < 12" and "12 \<le> length h"
  shows "\<exists>ps. forecastData h = Inr ps \<and> length ps = 12 \<and>
           ps ! i =
             \<lparr> month_f = (months ! i) @ '' (F)'',
               revenue_f = jround (jmul (revenue (h ! i)) (Num 1.08)),
               forecastHigh = jround (jmul (jmul (revenue (h ! i)) (Num 1.08)) (Num 1.10)),
               forecastLow = jround (jmul (jmul (revenue (h ! i)) (Num 1.08)) (Num 0.90)),
               confidence = Num (max 0 (0.85 - 0.02 * real i)) \<rparr>"
proof -
  from forecastData_Inr [OF assms(2)] obtain ps where
    ps: "forecastData h = Inr ps" "length ps = 12"
        "\<forall>k<12. forecastPoint h (months ! k) k = Inr (ps ! k)"
    by blast
  from assms have "i < length h" by simp
  from forecastPoint_Inr [OF this, of "months ! i"] ps(3) assms(1)
  have "ps ! i =
             \<lparr> month_f = (months ! i) @ '' (F)'',
               revenue_f = jround (jmul (revenue (h ! i)) (Num 1.08)),
               forecastHigh = jround (jmul (jmul (revenue (h ! i)) (Num 1.08)) (Num 1.10)),
               forecastLow = jround (jmul (jmul (revenue (h ! i)) (Num 1.08)) (Num 0.90)),
               confidence = Num (max 0 (0.85 - 0.02 * real i)) \<rparr>"
    by simp
  with ps(1,2) show ?thesis by blast
qed

theorem forecast_point_formula_witness:
  "\<exists>ps. forecastData decemberMillion = Inr ps \<and>
        month_f (ps ! 11) = ''Dec (F)'' \<and>
        revenue_f (ps ! 11) = Num 1080000 \<and>
        forecastHigh (ps ! 11) = Num 1188000 \<and>
        forecastLow (ps ! 11) = Num 972000 \<and>
        confidence (ps ! 11) = Num 0.63"
proof -
  have i: "(11::nat) < 12" by simp
  have l: "12 \<le> length decemberMillion" by (simp add: length_decemberMillion)
  from forecast_point_formula [OF i l] obtain ps where
    ps: "forecastData decemberMillion = Inr ps"
        "ps ! 11 =
             \<lparr> month_f = (months ! 11) @ '' (F)'',
               revenue_f = jround (jmul (revenue (decemberMillion ! 11)) (Num 1.08)),
               forecastHigh = jround (jmul (jmul (revenue (decemberMillion ! 11)) (Num 1.08)) (Num 1.10)),
               forecastLow = jround (jmul (jmul (revenue (decemberMillion ! 11)) (Num 1.08)) (Num 0.90)),
               confidence = Num (max 0 (0.85 - 0.02 * real (11::nat))) \<rparr>"
    by blast
  have "month_f (ps ! 11) = ''Dec (F)''"
    by (simp add: ps(2) months_def)
  moreover have "revenue_f (ps ! 11) = Num 1080000"
    by (simp add: ps(2) decemberMillion_11 monthWithRevenue_def)
  moreover have "forecastHigh (ps ! 11) = Num 1188000"
    by (simp add: ps(2) decemberMillion_11 monthWithRevenue_def)
  moreover have "forecastLow (ps ! 11) = Num 972000"
    by (simp add: ps(2) decemberMillion_11 monthWithRevenue_def)
  moreover have "confidence (ps ! 11) = Num 0.63"
    by (simp add: ps(2))
  ultimately show ?thesis using ps(1) by blast
qed

text \<open>
  C3. For a history of at least twelve records whose revenues are all non-negative,
  every point that \<open>forecastData\<close> returns has its lower bound at most its revenue
  and its revenue at most its upper bound.
\<close>

theorem forecast_band_order:
  assumes "12 \<le> length h" and "\<forall>m\<in>set h. jle (Num 0) (revenue m)"
  shows "\<exists>ps. forecastData h = Inr ps \<and> length ps = 12 \<and>
           (\<forall>p\<in>set ps. jle (forecastLow p) (revenue_f p) \<and> jle (revenue_f p) (forecastHigh p))"
proof -
  from forecastData_Inr [OF assms(1)] obtain ps where
    ps: "forecastData h = Inr ps" "length ps = 12"
        "\<forall>k<12. forecastPoint h (months ! k) k = Inr (ps ! k)"
    by blast
  have "jle (forecastLow p) (revenue_f p) \<and> jle (revenue_f p) (forecastHigh p)"
    if "p \<in> set ps" for p
  proof -
    from that ps(2) obtain k where k: "k < 12" "p = ps ! k"
      by (auto simp: in_set_conv_nth)
    with assms(1) have kh: "k < length h" by simp
    then have "h ! k \<in> set h" by simp
    with assms(2) have nonneg: "jle (Num 0) (revenue (h ! k))" by blast
    from forecastPoint_Inr [OF kh, of "months ! k"] ps(3) k
    have "p = \<lparr> month_f = (months ! k) @ '' (F)'',
           revenue_f = jround (jmul (revenue (h ! k)) (Num 1.08)),
           forecastHigh = jround (jmul (jmul (revenue (h ! k)) (Num 1.08)) (Num 1.10)),
           forecastLow = jround (jmul (jmul (revenue (h ! k)) (Num 1.08)) (Num 0.90)),
           confidence = Num (max 0 (0.85 - 0.02 * real k)) \<rparr>"
      by simp
    with band_order [OF nonneg] show ?thesis by simp
  qed
  with ps(1,2) show ?thesis by blast
qed

theorem forecast_band_order_witness:
  "\<exists>ps. forecastData decemberMillion = Inr ps \<and>
        jle (forecastLow (ps ! 11)) (revenue_f (ps ! 11)) \<and>
        jle (revenue_f (ps ! 11)) (forecastHigh (ps ! 11))"
proof -
  have l: "12 \<le> length decemberMillion" by (simp add: length_decemberMillion)
  have r: "\<forall>m\<in>set decemberMillion. jle (Num 0) (revenue m)"
    using decemberMillion_revenue by blast
  from forecast_band_order [OF l r] obtain ps where
    ps: "forecastData decemberMillion = Inr ps" "length ps = 12"
        "\<forall>p\<in>set ps. jle (forecastLow p) (revenue_f p) \<and> jle (revenue_f p) (forecastHigh p)"
    by blast
  from ps(2) have "ps ! 11 \<in> set ps" by simp
  with ps(3) have "jle (forecastLow (ps ! 11)) (revenue_f (ps ! 11)) \<and>
        jle (revenue_f (ps ! 11)) (forecastHigh (ps ! 11))" by blast
  with ps(1) show ?thesis by blast
qed

text \<open>
  C4. Among the points that \<open>forecastData\<close> returns, the confidence at a later
  index is at most the confidence at an earlier one, and no confidence is negative.
\<close>

theorem confidence_nonincreasing:
  assumes "12 \<le> length h"
  shows "\<exists>ps. forecastData h = Inr ps \<and>
           (\<forall>i j. i \<le> j \<and> j < 12 \<longrightarrow>
              jle (confidence (ps ! j)) (confidence (ps ! i)) \<and> jle (Num 0) (confidence (ps ! i)))"
proof -
  from forecastData_Inr [OF assms] obtain ps where
    ps: "forecastData h = Inr ps"
        "\<forall>k<12. forecastPoint h (months ! k) k = Inr (ps ! k)"
    by blast
  have conf: "confidence (ps ! k) = Num (max 0 (0.85 - 0.02 * real k))" if "k < 12" for k
  proof -
    from that assms have "k < length h" by simp
    from forecastPoint_Inr [OF this, of "months ! k"] ps(2) that
    have "ps ! k = \<lparr> month_f = (months ! k) @ '' (F)'',
           revenue_f = jround (jmul (revenue (h ! k)) (Num 1.08)),
           forecastHigh = jround (jmul (jmul (revenue (h ! k)) (Num 1.08)) (Num 1.10)),
           forecastLow = jround (jmul (jmul (revenue (h ! k)) (Num 1.08)) (Num 0.90)),
           confidence = Num (max 0 (0.85 - 0.02 * real k)) \<rparr>"
      by simp
    then show ?thesis by simp
  qed
  have "jle (confidence (ps ! j)) (confidence (ps ! i)) \<and> jle (Num 0) (confidence (ps ! i))"
    if "i \<le> j" "j < 12" for i j
  proof -
    from that have "i < 12" by simp
    with that show ?thesis by (simp add: conf)
  qed
  with ps(1) show ?thesis by blast
qed

theorem confidence_nonincreasing_witness:
  "\<exists>ps. forecastData decemberMillion = Inr ps \<and>
        jle (confidence (ps ! 11)) (confidence (ps ! 0)) \<and>
        jle (Num 0) (confidence (ps ! 11))"
proof -
  have l: "12 \<le> length decemberMillion" by (simp add: length_decemberMillion)
  from confidence_nonincreasing [OF l] obtain ps where
    ps: "forecastData decemberMillion = Inr ps"
        "\<forall>i j. i \<le> j \<and> j < 12 \<longrightarrow>
              jle (confidence (ps ! j)) (confidence (ps ! i)) \<and> jle (Num 0) (confidence (ps ! i))"
    by blast
  have "jle (confidence (ps ! 11)) (confidence (ps ! 0)) \<and> jle (Num 0) (confidence (ps ! 0))"
    using ps(2) [rule_format, of 0 11] by simp
  moreover have "jle (confidence (ps ! 11)) (confidence (ps ! 11)) \<and> jle (Num 0) (confidence (ps ! 11))"
    using ps(2) [rule_format, of 11 11] by simp
  ultimately show ?thesis using ps(1) by blast
qed

subsection \<open>The scenarios\<close>

text \<open>
  C5. For a finite total revenue \<open>t\<close> the three scenario amounts are
  \<open>t * 0.85\<close>, \<open>t * 1.08\<close> and \<open>t * 1.25\<close>, and for a positive \<open>t\<close> the bear
  amount is below the base amount, which is below the bull amount. At 10,000,000 the
  amounts are 8,500,000, 10,800,000 and 12,500,000.
\<close>

theorem scenario_cases:
  "bearCase (Num t) = Num (t * 0.85) \<and> baseCase (Num t) = Num (t * 1.08)
   \<and> bullCase (Num t) = Num (t * 1.25)
   \<and> bearMillions (Num t) = Num (t * 0.85 / 1000000)
   \<and> baseMillions (Num t) = Num (t * 1.08 / 1000000)
   \<and> bullMillions (Num t) = Num (t * 1.25 / 1000000)
   \<and> (0 < t \<longrightarrow> jless (bearCase (Num t)) (baseCase (Num t))
                \<and> jless (baseCase (Num t)) (bullCase (Num t)))"
  by (simp add: bearCase_def baseCase_def bullCase_def bearMillions_def baseMillions_def
      bullMillions_def)

theorem scenario_cases_witness:
  "(0::real) < 10000000 \<and> bearCase (Num 10000000) = Num 8500000
   \<and> baseCase (Num 10000000) = Num 10800000 \<and> bullCase (Num 10000000) = Num 12500000
   \<and> jless (bearCase (Num 10000000)) (baseCase (Num 10000000))
   \<and> jless (baseCase (Num 10000000)) (bullCase (Num 10000000))"
  using scenario_cases [of 10000000] by simp

subsection \<open>The generator\<close>

text \<open>
  C8. For a period index up to 11 the seasonality is \<open>0.8 + 0.05 * index\<close> up to
  index 5 and \<open>1.2 - 0.03 * (index - 6)\<close> from index 6 on, the holiday boost is 1.4 at
  the indices 10 and 11 and 1 at every other index, and the revenue of the record is the
  rounded product of its base draw, the seasonality and the holiday boost.
\<close>

theorem seasonality_holidayBoost_values:
  assumes "index \<le> 11"
  shows "seasonality index =
           Num (if index \<le> 5 then 0.8 + 0.05 * real index else 1.2 - 0.03 * (real index - 6))
       \<and> holidayBoost index = Num (if index = 10 \<or> index = 11 then 1.4 else 1)
       \<and> revenue (fst (monthRecord src mo index n)) =
           jround (Num ((850000 + src n * 150000)
                        * (if index \<le> 5 then 0.8 + 0.05 * real index else 1.2 - 0.03 * (real index - 6))
                        * (if index = 10 \<or> index = 11 then 1.4 else 1)))"
proof -
  have s: "seasonality index =
           Num (if index \<le> 5 then 0.8 + 0.05 * real index else 1.2 - 0.03 * (real index - 6))"
    by (simp add: seasonality_Num less_Suc_eq_le [symmetric])
  have b: "holidayBoost index = Num (if index = 10 \<or> index = 11 then 1.4 else 1)"
    by (rule holidayBoost_Num)
  have "revenue (fst (monthRecord src mo index n)) =
          jround (jmul (jmul (Num (850000 + src n * 150000)) (seasonality index)) (holidayBoost index))"
    by (simp add: monthRecord_fields)
  with s b show ?thesis by simp
qed

theorem seasonality_holidayBoost_values_witness:
  "(10::nat) \<le> 11 \<and> seasonality 10 = Num 1.08 \<and> holidayBoost 10 = Num 1.4
   \<and> revenue (fst (monthRecord (\<lambda>_. 0) ''Nov'' 10 0)) = Num 1285200"
  using seasonality_holidayBoost_values [of 10 "\<lambda>_. 0" "''Nov''" 0] by simp

text \<open>
  C9, as the claim states it, fails. With every draw 0 the record at index 10, where
  the seasonality is 1.08 and the holiday boost 1.4, has the average order value 280,
  the base amount itself; the same base amount scaled by the two factors, as the revenue
  and the units are, rounds to 423.
\<close>

theorem avgOrderValue_seasonal_counterexample:
  "avgOrderValue (fst (historicalData zeroDraws 0) ! 10) = Num 280
   \<and> jround (jmul (jmul (jadd (Num 280) (jmul (Num (zeroDraws 104)) (Num 40))) (seasonality 10))
                  (holidayBoost 10)) = Num 423"
  by (simp add: historicalData_nth monthRecord_fields zeroDraws_def seasonality_Num
      holidayBoost_Num)

text \<open>
  C9, amended. In the record at a period index \<open>i\<close> below 12 of one generation
  run, the revenue and the units are each the rounded product of a base draw, the
  seasonality at \<open>i\<close> and the holiday boost at \<open>i\<close>; the average order value is
  \<open>round(280 + 40 * r)\<close> for its draw \<open>r\<close>, with neither factor.
\<close>

theorem generator_seasonal_fields:
  assumes "i < 12"
  shows "revenue (fst (historicalData src n) ! i) =
           jround (jmul (jmul (Num (850000 + src (n + 10 * i) * 150000)) (seasonality i))
                        (holidayBoost i))
       \<and> units (fst (historicalData src n) ! i) =
           jround (jmul (jmul (Num (2800 + src (n + 10 * i + 1) * 500)) (seasonality i))
                        (holidayBoost i))
       \<and> avgOrderValue (fst (historicalData src n) ! i) =
           jround (Num (280 + src (n + 10 * i + 4) * 40))"
  by (simp add: historicalData_nth [OF assms] monthRecord_fields)

theorem generator_seasonal_fields_witness:
  "revenue (fst (historicalData zeroDraws 0) ! 10) = Num 1285200
   \<and> units (fst (historicalData zeroDraws 0) ! 10) = Num 4234
   \<and> avgOrderValue (fst (historicalData zeroDraws 0) ! 10) = Num 280"
proof -
  have i: "(10::nat) < 12" by simp
  from generator_seasonal_fields [OF i, of zeroDraws 0]
  show ?thesis by (simp add: zeroDraws_def seasonality_Num holidayBoost_Num)
qed

text \<open>
  C10, as the claim states it, fails. With every draw \<open>1 - 2^-52\<close>, a binary64 number
  in \<open>[0, 1)\<close>, the gross margin of the first record is \<open>6485183463413515 / 2^53\<close>,
  which the language prints as 0.7200000000000001: it is above 0.72, and above the
  binary64 number that the literal 0.72 denotes. The conversion rate there is the number
  that the literal 0.038 denotes, so that the test \<open>conversionRate < 0.038\<close> of the
  language is false.
\<close>

theorem generated_margin_counterexample:
  "validDraws topDraws
   \<and> grossMargin (fst (historicalData topDraws 0) ! 0) = Num (6485183463413515 / 2 ^ 53)
   \<and> jless (Num 0.72) (grossMargin (fst (historicalData topDraws 0) ! 0))
   \<and> jless (lit 0.72) (grossMargin (fst (historicalData topDraws 0) ! 0))
   \<and> conversionRate (fst (historicalData topDraws 0) ! 0) = lit 0.038
   \<and> \<not> jless (conversionRate (fst (historicalData topDraws 0) ! 0)) (lit 0.038)"
proof -
  have g: "grossMargin (fst (historicalData topDraws 0) ! 0) = Num (6485183463413515 / 2 ^ 53)"
    by (simp add: historicalData_nth monthRecord_fields topDraws_def lit_def jsub_Num round64_eval)
  have c: "conversionRate (fst (historicalData topDraws 0) ! 0) = Num (5476377146882523 / 2 ^ 57)"
    by (simp add: historicalData_nth monthRecord_fields topDraws_def lit_def jsub_Num round64_eval)
  have "jless (Num 0.72) (Num (6485183463413515 / 2 ^ 53))" by simp
  moreover have "jless (lit 0.72) (Num (6485183463413515 / 2 ^ 53))"
    by (simp add: lit_def round64_eval)
  moreover have "\<not> jless (Num (5476377146882523 / 2 ^ 57)) (lit 0.038)"
    by (simp add: lit_def round64_eval)
  moreover have "Num (5476377146882523 / 2 ^ 57) = lit 0.038"
    by (simp add: lit_def round64_eval)
  ultimately show ?thesis using g c validDraws_topDraws by (simp only:) simp
qed

text \<open>
  C10, amended. Whatever the draws, each a binary64 number in \<open>[0, 1)\<close>,
  \<open>generateMockData\<close> returns, and its history has exactly twelve records. The gross
  margin of each is at least 0.64 and at most \<open>6485183463413515 / 2^53\<close>, the binary64
  number printed 0.7200000000000001; the conversion rate of each is at least 0.030 and at
  most \<open>5476377146882523 / 2^57\<close>, the binary64 number that the literal 0.038 denotes.
  Both therefore lie in \<open>[0, 1]\<close>.
\<close>

theorem generated_series_bounds:
  assumes "validDraws src"
  shows "\<exists>h f n'. generateMockData src n = Inr ((h, f), n') \<and> length h = 12 \<and>
           (\<forall>k<12. \<exists>g c. grossMargin (h ! k) = Num g \<and> 0.64 \<le> g
                        \<and> g \<le> 6485183463413515 / 2 ^ 53 \<and> 0 \<le> g \<and> g \<le> 1
                        \<and> conversionRate (h ! k) = Num c \<and> 0.030 \<le> c
                        \<and> c \<le> 5476377146882523 / 2 ^ 57 \<and> 0 \<le> c \<and> c \<le> 1)"
proof -
  obtain h n' where hd: "historicalData src n = (h, n')" by (cases "historicalData src n")
  then have h: "h = fst (historicalData src n)" by simp
  have len: "length h = 12" by (simp add: h historicalData_length)
  then have "12 \<le> length h" by simp
  from forecastData_Inr [OF this] obtain f where f: "forecastData h = Inr f" by blast
  have gen: "generateMockData src n = Inr ((h, f), n')"
    by (simp add: generateMockData_def hd f)
  have "\<exists>g c. grossMargin (h ! k) = Num g \<and> 0.64 \<le> g
             \<and> g \<le> 6485183463413515 / 2 ^ 53 \<and> 0 \<le> g \<and> g \<le> 1
             \<and> conversionRate (h ! k) = Num c \<and> 0.030 \<le> c
             \<and> c \<le> 5476377146882523 / 2 ^ 57 \<and> 0 \<le> c \<and> c \<le> 1"
    if "k < 12" for k
  proof -
    from record_margins [OF assms, of "months ! k" k "n + 10 * k"] obtain g c where
      gc: "grossMargin (fst (monthRecord src (months ! k) k (n + 10 * k))) = Num g"
          "5764607523034235 / 2 ^ 53 \<le> g" "g \<le> 6485183463413515 / 2 ^ 53"
          "conversionRate (fst (monthRecord src (months ! k) k (n + 10 * k))) = Num c"
          "8646911284551353 / 2 ^ 58 \<le> c" "c \<le> 5476377146882523 / 2 ^ 57"
      by blast
    from gc(2,3) have "0.64 \<le> g" "0 \<le> g" "g \<le> 1" by simp_all
    moreover from gc(5,6) have "0.030 \<le> c" "0 \<le> c" "c \<le> 1" by simp_all
    moreover have "grossMargin (h ! k) = Num g" "conversionRate (h ! k) = Num c"
      using gc(1,4) by (simp_all add: h historicalData_nth [OF that])
    ultimately show ?thesis using gc(3,6) by blast
  qed
  with gen len show ?thesis by blast
qed

theorem generated_series_bounds_witness:
  "\<exists>h f n'. generateMockData zeroDraws 0 = Inr ((h, f), n') \<and> length h = 12
      \<and> grossMargin (h ! 0) = Num (5764607523034235 / 2 ^ 53)
      \<and> conversionRate (h ! 0) = Num (8646911284551353 / 2 ^ 58)"
proof -
  from generated_series_bounds [OF validDraws_zeroDraws, of 0] obtain h f n' where
    g: "generateMockData zeroDraws 0 = Inr ((h, f), n')" "length h = 12"
    by blast
  from g(1) have h: "h = fst (historicalData zeroDraws 0)"
    by (auto simp: generateMockData_def split: prod.splits sum.splits)
  have "grossMargin (h ! 0) = Num (5764607523034235 / 2 ^ 53)"
    by (simp add: h historicalData_nth monthRecord_fields zeroDraws_def lit_def jsub_Num round64_eval)
  moreover have "conversionRate (h ! 0) = Num (8646911284551353 / 2 ^ 58)"
    by (simp add: h historicalData_nth monthRecord_fields zeroDraws_def lit_def jsub_Num round64_eval)
  ultimately show ?thesis using g by blast
qed

subsection \<open>The KPIs\<close>

text \<open>
  C2. On a history of at least two records \<open>kpis\<close> returns; its total revenue is
  the sum of the revenues, its three averages are the sums of their fields divided by the
  number of records (for fields that are finite numbers), and its monthly growth is
  \<open>(last.revenue - secondToLast.revenue) / secondToLast.revenue * 100\<close> in the
  arithmetic of the language, which for finite revenues and a nonzero divisor is that
  real number. On the revenues 100 then 110 the growth is 10.
\<close>

theorem kpis_aggregate:
  assumes "2 \<le> length h"
  shows "\<exists>k. kpis h = Inr k
     \<and> (\<forall>rs. map revenue h = map Num rs \<longrightarrow> totalRevenue k = Num (sum_list rs))
     \<and> (\<forall>gs. map grossMargin h = map Num gs \<longrightarrow>
           avgGrossMargin k = Num (sum_list gs / real (length h)))
     \<and> (\<forall>cs. map conversionRate h = map Num cs \<longrightarrow>
           avgConversionRate k = Num (sum_list cs / real (length h)))
     \<and> (\<forall>vs. map avgOrderValue h = map Num vs \<longrightarrow>
           avgOrderValue_k k = Num (sum_list vs / real (length h)))
     \<and> monthlyGrowth k =
           jmul (jdiv (jsub (revenue (last h)) (revenue (h ! (length h - 2))))
                      (revenue (h ! (length h - 2)))) (Num 100)
     \<and> (\<forall>c p. revenue (last h) = Num c \<and> revenue (h ! (length h - 2)) = Num p \<and> p \<noteq> 0 \<longrightarrow>
           monthlyGrowth k = Num ((c - p) / p * 100))"
proof -
  from assms have len: "real (length h) \<noteq> 0" by auto
  let ?g = "jmul (jdiv (jsub (revenue (last h)) (revenue (h ! (length h - 2))))
                      (revenue (h ! (length h - 2)))) (Num 100)"
  let ?k = "\<lparr> totalRevenue = reduceSum revenue h,
             avgGrossMargin = jdiv (reduceSum grossMargin h) (Num (real (length h))),
             avgConversionRate = jdiv (reduceSum conversionRate h) (Num (real (length h))),
             avgOrderValue_k = jdiv (reduceSum avgOrderValue h) (Num (real (length h))),
             monthlyGrowth = ?g \<rparr>"
  have k: "kpis h = Inr ?k"
    by (simp add: kpis_def monthlyGrowthOf_two [OF assms])
  have "\<forall>rs. map revenue h = map Num rs \<longrightarrow> totalRevenue ?k = Num (sum_list rs)"
    by (simp add: reduceSum_Num)
  moreover have "\<forall>gs. map grossMargin h = map Num gs \<longrightarrow>
           avgGrossMargin ?k = Num (sum_list gs / real (length h))"
    using len by (simp add: reduceSum_Num)
  moreover have "\<forall>cs. map conversionRate h = map Num cs \<longrightarrow>
           avgConversionRate ?k = Num (sum_list cs / real (length h))"
    using len by (simp add: reduceSum_Num)
  moreover have "\<forall>vs. map avgOrderValue h = map Num vs \<longrightarrow>
           avgOrderValue_k ?k = Num (sum_list vs / real (length h))"
    using len by (simp add: reduceSum_Num)
  moreover have "monthlyGrowth ?k = ?g" by simp
  moreover have "\<forall>c p. revenue (last h) = Num c \<and> revenue (h ! (length h - 2)) = Num p \<and> p \<noteq> 0 \<longrightarrow>
           monthlyGrowth ?k = Num ((c - p) / p * 100)"
    by (simp add: jsub_Num)
  ultimately show ?thesis using k by blast
qed

theorem kpis_aggregate_witness:
  "\<exists>k. kpis twoMonths = Inr k \<and> totalRevenue k = Num 210 \<and> avgGrossMargin k = Num 0.68
     \<and> avgConversionRate k = Num 0.034 \<and> avgOrderValue_k k = Num 300
     \<and> monthlyGrowth k = Num 10"
proof -
  have l: "2 \<le> length twoMonths" by (simp add: twoMonths_def)
  from kpis_aggregate [OF l] obtain k where
    k: "kpis twoMonths = Inr k"
       "\<forall>rs. map revenue twoMonths = map Num rs \<longrightarrow> totalRevenue k = Num (sum_list rs)"
       "\<forall>gs. map grossMargin twoMonths = map Num gs \<longrightarrow>
           avgGrossMargin k = Num (sum_list gs / real (length twoMonths))"
       "\<forall>cs. map conversionRate twoMonths = map Num cs \<longrightarrow>
           avgConversionRate k = Num (sum_list cs / real (length twoMonths))"
       "\<forall>vs. map avgOrderValue twoMonths = map Num vs \<longrightarrow>
           avgOrderValue_k k = Num (sum_list vs / real (length twoMonths))"
       "\<forall>c p. revenue (last twoMonths) = Num c
             \<and> revenue (twoMonths ! (length twoMonths - 2)) = Num p \<and> p \<noteq> 0 \<longrightarrow>
           monthlyGrowth k = Num ((c - p) / p * 100)"
    by blast
  have "totalRevenue k = Num 210"
    using k(2) [rule_format, of "[100, 110]"] by (simp add: twoMonths_def monthWithRevenue_def)
  moreover have "avgGrossMargin k = Num 0.68"
    using k(3) [rule_format, of "[0.68, 0.68]"] by (simp add: twoMonths_def monthWithRevenue_def)
  moreover have "avgConversionRate k = Num 0.034"
    using k(4) [rule_format, of "[0.034, 0.034]"] by (simp add: twoMonths_def monthWithRevenue_def)
  moreover have "avgOrderValue_k k = Num 300"
    using k(5) [rule_format, of "[300, 300]"] by (simp add: twoMonths_def monthWithRevenue_def)
  moreover have "monthlyGrowth k = Num 10"
    using k(6) [rule_format, of 110 100] by (simp add: twoMonths_def monthWithRevenue_def)
  ultimately show ?thesis using k(1) by blast
qed

text \<open>
  C6, as the claim states it, fails: on the empty history \<open>kpis\<close> does not return
  the summary whose five fields are 0.
\<close>

theorem kpis_empty_all_zero_counterexample:
  "kpis [] \<noteq> Inr \<lparr> totalRevenue = Num 0, avgGrossMargin = Num 0, avgConversionRate = Num 0,
                   avgOrderValue_k = Num 0, monthlyGrowth = Num 0 \<rparr>"
  by (simp add: kpis_def reduceSum_def monthlyGrowthOf_short)

text \<open>
  C6, amended. On the empty history \<open>kpis\<close> returns, without an error, the total
  revenue 0 and the monthly growth 0; each of the three averages is \<open>0 / 0\<close>, that
  is \<open>NaN\<close>.
\<close>

theorem kpis_empty:
  "kpis [] = Inr \<lparr> totalRevenue = Num 0, avgGrossMargin = NaN, avgConversionRate = NaN,
                   avgOrderValue_k = NaN, monthlyGrowth = Num 0 \<rparr>"
  by (simp add: kpis_def reduceSum_def monthlyGrowthOf_short)

text \<open>
  C7, as the claim states it, fails: on two records of which the first has the revenue
  0, the division of the monthly growth is evaluated with the divisor 0, and the growth
  is \<open>Infinity\<close>.
\<close>

theorem growth_divisor_zero_counterexample:
  "growthDivisor zeroThenSales = Some (Num 0) \<and> monthlyGrowthOf zeroThenSales = Inr PosInf"
  by (simp add: growthDivisor_eq monthlyGrowthOf_two zeroThenSales_def monthWithRevenue_def
      jsub_Num signedInf_def)

text \<open>
  C7, amended. The division of the monthly growth is evaluated exactly on a history
  of at least two records, with the divisor \<open>secondToLast.revenue\<close>, whatever its
  value. With fewer than two records no division is evaluated and the growth is 0. The
  computation never throws; where the divisor is 0 its result is an infinity or
  \<open>NaN\<close>.
\<close>

theorem growth_guard:
  "growthDivisor h = (if 2 \<le> length h then Some (revenue (h ! (length h - 2))) else None)
   \<and> (length h < 2 \<longrightarrow> monthlyGrowthOf h = Inr (Num 0))
   \<and> (2 \<le> length h \<longrightarrow>
        monthlyGrowthOf h =
          Inr (jmul (jdiv (jsub (revenue (last h)) (revenue (h ! (length h - 2))))
                          (revenue (h ! (length h - 2)))) (Num 100)))
   \<and> (2 \<le> length h \<and> revenue (h ! (length h - 2)) = Num 0 \<longrightarrow>
        monthlyGrowthOf h \<in> {Inr PosInf, Inr NegInf, Inr NaN})"
proof -
  have "monthlyGrowthOf h \<in> {Inr PosInf, Inr NegInf, Inr NaN}"
    if "2 \<le> length h" "revenue (h ! (length h - 2)) = Num 0"
    using zero_divisor_growth [of "revenue (last h)"] that
    by (auto simp: monthlyGrowthOf_two)
  then show ?thesis
    by (simp add: growthDivisor_eq monthlyGrowthOf_short monthlyGrowthOf_two)
qed

theorem growth_guard_witness:
  "growthDivisor [monthWithRevenue ''Dec'' 110] = None
   \<and> monthlyGrowthOf [monthWithRevenue ''Dec'' 110] = Inr (Num 0)
   \<and> growthDivisor twoMonths = Some (Num 100)
   \<and> monthlyGrowthOf twoMonths = Inr (Num 10)
   \<and> monthlyGrowthOf zeroThenSales \<in> {Inr PosInf, Inr NegInf, Inr NaN}"
proof -
  have a: "growthDivisor [monthWithRevenue ''Dec'' 110] = None
     \<and> monthlyGrowthOf [monthWithRevenue ''Dec'' 110] = Inr (Num 0)"
    using growth_guard [of "[monthWithRevenue ''Dec'' 110]"] by simp
  have b: "growthDivisor twoMonths = Some (Num 100) \<and> monthlyGrowthOf twoMonths = Inr (Num 10)"
    using growth_guard [of twoMonths]
    by (simp add: twoMonths_def monthWithRevenue_def jsub_Num)
  have c: "monthlyGrowthOf zeroThenSales \<in> {Inr PosInf, Inr NegInf, Inr NaN}"
  proof -
    have z: "2 \<le> length zeroThenSales
         \<and> revenue (zeroThenSales ! (length zeroThenSales - 2)) = Num 0"
      by (simp add: zeroThenSales_def monthWithRevenue_def)
    from growth_guard [of zeroThenSales]
    have "2 \<le> length zeroThenSales
         \<and> revenue (zeroThenSales ! (length zeroThenSales - 2)) = Num 0 \<longrightarrow>
        monthlyGrowthOf zeroThenSales \<in> {Inr PosInf, Inr NegInf, Inr NaN}"
      by blast
    with z show ?thesis by blast
  qed
  from a b c show ?thesis by simp
qed

end
